theory Spec2Isabelle
  imports Complex_Main "HOL-Library.Sublist"
begin

section \<open>Colours, exceptions and Python arithmetic\<close>

text \<open>
  A colour is the triple of channel values that \<^verbatim>\<open>getdata()\<close> and ColorThief hand to
  \<^verbatim>\<open>palette.py\<close>. Python's unbounded integers are \<open>int\<close>.
\<close>

type_synonym rgb = "int \<times> int \<times> int"

text \<open>
  The exceptions that can leave the functions of \<^verbatim>\<open>palette.py\<close>: the repository's own
  \<^verbatim>\<open>NotEnoughColors\<close> and the built-in ones raised by Python and by Pillow.
  \<open>ExtractionError\<close> stands for whatever the colour extractors raise.
\<close>

datatype exn = NotEnoughColors | TypeError | ValueError | ZeroDivisionError | IndexError
  | ExtractionError

text \<open>
  A Python float is an IEEE 754 double. Its value is a rational number, and every float
  operation returns the exact result rounded to the nearest double, ties to the even
  mantissa. \<open>fl\<close> is that rounding: the exponent \<open>e\<close> is chosen so that the mantissa
  \<open>\<bar>x\<bar> / 2 ^ e\<close> lies between \<open>2 ^ 52\<close> and \<open>2 ^ 53\<close>, and the mantissa is rounded to
  an integer. The exponent is not bounded: the sizes of images are far from overflow and
  from the subnormal numbers.
\<close>

fun bit_length :: "nat \<Rightarrow> nat" where
  "bit_length n = (if n = 0 then 0 else Suc (bit_length (n div 2)))"

declare bit_length.simps [simp del]

definition pow2 :: "int \<Rightarrow> rat" where
  "pow2 e = (if 0 \<le> e then 2 ^ nat e else 1 / 2 ^ nat (- e))"

text \<open>The integer part of the binary logarithm of a positive rational.\<close>

definition ilog2 :: "rat \<Rightarrow> int" where
  "ilog2 x =
     (if 1 \<le> x then int (bit_length (nat \<lfloor>x\<rfloor>)) - 1
      else - int (bit_length (nat (\<lceil>1 / x\<rceil> - 1))))"

definition round_half_even :: "rat \<Rightarrow> int" where
  "round_half_even q =
     (let f = \<lfloor>q\<rfloor>; r = q - of_int f
      in if r < 1 / 2 then f else if r > 1 / 2 then f + 1 else if even f then f else f + 1)"

definition fl :: "rat \<Rightarrow> rat" where
  "fl x =
     (if x = 0 then 0
      else let e = ilog2 \<bar>x\<bar> - 52; m = round_half_even (\<bar>x\<bar> / pow2 e)
           in sgn x * of_int m * pow2 e)"

text \<open>
  The float operations of \<^verbatim>\<open>palette.py\<close>: a float literal, the conversion of an
  integer operand, the product and the quotient of two floats, and the true division
  \<^verbatim>\<open>a / b\<close> of two integers, which Python rounds once.
\<close>

definition float_lit :: "rat \<Rightarrow> rat" where
  "float_lit q = fl q"

definition float_of_int :: "int \<Rightarrow> rat" where
  "float_of_int k = fl (of_int k)"

definition fmul :: "rat \<Rightarrow> rat \<Rightarrow> rat" where
  "fmul x y = fl (x * y)"

definition fdiv :: "rat \<Rightarrow> rat \<Rightarrow> rat" where
  "fdiv x y = fl (x / y)"

definition int_truediv :: "int \<Rightarrow> int \<Rightarrow> rat" where
  "int_truediv a b = fl (of_int a / of_int b)"

text \<open>\<^verbatim>\<open>int(x)\<close> on a float truncates towards zero.\<close>

definition py_int :: "rat \<Rightarrow> int" where
  "py_int q = (if q < 0 then - \<lfloor>- q\<rfloor> else \<lfloor>q\<rfloor>)"

section \<open>\<^verbatim>\<open>clean_colors\<close>\<close>

text \<open>
  \<^verbatim>\<open>
  hits = 0
  for tup in colors[color]:
      if tup > 160:
          hits += 1
  \<close>
\<close>

definition channels :: "rgb \<Rightarrow> int list" where
  "channels c = (case c of (r, g, b) \<Rightarrow> [r, g, b])"

definition white_hits :: "rgb \<Rightarrow> int" where
  "white_hits c = foldl (\<lambda>h tup. if tup > 160 then h + 1 else h) 0 (channels c)"

text \<open>
  The loop \<^verbatim>\<open>for color in range(5, len(colors))\<close>: the third argument is the list of
  indices still to visit. The first index whose colour has more than \<open>tolerancy\<close> bright
  channels ends the loop with \<^verbatim>\<open>colors[:color]\<close>; when the range is used up the list
  itself is returned.
\<close>

fun clean_scan :: "rgb list \<Rightarrow> int \<Rightarrow> nat list \<Rightarrow> rgb list" where
  "clean_scan colors tolerancy [] = colors"
| "clean_scan colors tolerancy (i # rest) =
     (if white_hits (colors ! i) > tolerancy then take i colors
      else clean_scan colors tolerancy rest)"

text \<open>The bare \<^verbatim>\<open>return\<close> of the short-list branch yields \<^verbatim>\<open>None\<close>.\<close>

definition clean_colors :: "rgb list \<Rightarrow> int \<Rightarrow> rgb list option" where
  "clean_colors colors tolerancy =
     (if length colors < 6 then None
      else Some (clean_scan colors tolerancy [5..<length colors]))"

section \<open>\<^verbatim>\<open>get_most_diff\<close>\<close>

text \<open>The dictionaries \<^verbatim>\<open>{"color": new, "hits": hits}\<close>.\<close>

record entry =
  color :: rgb
  hits :: int

definition diff_hits :: "rgb list \<Rightarrow> rgb \<Rightarrow> int" where
  "diff_hits saved_colors new =
     foldl (\<lambda>h saved. if \<bar>fst new - fst saved\<bar> > 10 then h + 1 else h) 0 saved_colors"

text \<open>
  \<^verbatim>\<open>sorted(xs, key=k, reverse=True)\<close>: CPython reverses the list, sorts it stably in
  ascending order of the key and reverses the result, so that equal keys keep their
  original order. \<open>sort_key\<close> is the stable insertion sort of the list library.
\<close>

definition sorted_reverse :: "('a \<Rightarrow> int) \<Rightarrow> 'a list \<Rightarrow> 'a list" where
  "sorted_reverse k xs = rev (sort_key k (rev xs))"

text \<open>Indexing \<^verbatim>\<open>[0]\<close> into an empty list raises \<^verbatim>\<open>IndexError\<close>.\<close>

definition get_most_diff :: "rgb list \<Rightarrow> rgb list \<Rightarrow> exn + entry" where
  "get_most_diff saved_colors new_colors =
     (let colors = map (\<lambda>new. \<lparr>color = new, hits = diff_hits saved_colors new\<rparr>) new_colors
      in case sorted_reverse hits colors of
           [] \<Rightarrow> Inl IndexError
         | e # _ \<Rightarrow> Inr e)"

section \<open>Images and the Pillow operations used\<close>

text \<open>
  A decoded image: its size and the colour of every pixel. The operations below follow
  Pillow: \<^verbatim>\<open>Image.new\<close> rejects a negative size with \<^verbatim>\<open>ValueError\<close>,
  \<^verbatim>\<open>paste\<close> clips the pasted rectangle to the target, \<^verbatim>\<open>ImageOps.expand\<close> creates
  the enlarged canvas with \<^verbatim>\<open>Image.new\<close> and pastes the image at (left, top),
  \<^verbatim>\<open>crop\<close> reads black outside the source, and \<^verbatim>\<open>resize\<close> copies the image when
  the size does not change and rejects a size below 1 with \<^verbatim>\<open>ValueError\<close>.
\<close>

record image =
  xsize :: int
  ysize :: int
  pixel :: "int \<Rightarrow> int \<Rightarrow> rgb"

definition white :: rgb where
  "white = (255, 255, 255)"

definition Image_new :: "int \<times> int \<Rightarrow> rgb \<Rightarrow> exn + image" where
  "Image_new sz c =
     (case sz of (w, h) \<Rightarrow>
        if w < 0 \<or> h < 0 then Inl ValueError
        else Inr \<lparr>xsize = w, ysize = h, pixel = (\<lambda>x y. c)\<rparr>)"

text \<open>\<^verbatim>\<open>dst.paste(im, (x0, y0))\<close> changes \<open>dst\<close> in place; the model returns the new \<open>dst\<close>.\<close>

definition paste :: "image \<Rightarrow> image \<Rightarrow> int \<times> int \<Rightarrow> image" where
  "paste dst im pos =
     (case pos of (x0, y0) \<Rightarrow>
        dst\<lparr>pixel := (\<lambda>x y.
          if 0 \<le> x \<and> x < xsize dst \<and> 0 \<le> y \<and> y < ysize dst
             \<and> x0 \<le> x \<and> x < x0 + xsize im \<and> y0 \<le> y \<and> y < y0 + ysize im
          then pixel im (x - x0) (y - y0)
          else pixel dst x y)\<rparr>)"

definition expand :: "image \<Rightarrow> int \<times> int \<times> int \<times> int \<Rightarrow> rgb \<Rightarrow> exn + image" where
  "expand im border fill =
     (case border of (l, t, r, b) \<Rightarrow>
        (case Image_new (l + xsize im + r, t + ysize im + b) fill of
           Inl e \<Rightarrow> Inl e
         | Inr out \<Rightarrow> Inr (paste out im (l, t))))"

definition crop :: "image \<Rightarrow> int \<times> int \<times> int \<times> int \<Rightarrow> image" where
  "crop im box =
     (case box of (left, upper, right, lower) \<Rightarrow>
        \<lparr>xsize = right - left, ysize = lower - upper,
         pixel = (\<lambda>x y.
           if 0 \<le> x + left \<and> x + left < xsize im \<and> 0 \<le> y + upper \<and> y + upper < ysize im
           then pixel im (x + left) (y + upper)
           else (0, 0, 0))\<rparr>)"

text \<open>
  The resampling filter of \<^verbatim>\<open>resize\<close> is floating-point work inside Pillow; it is the
  parameter \<open>resample\<close>, which gives the pixels of the resized image.
\<close>

definition resize ::
  "(image \<Rightarrow> int \<times> int \<Rightarrow> int \<Rightarrow> int \<Rightarrow> rgb) \<Rightarrow> image \<Rightarrow> int \<times> int \<Rightarrow> exn + image" where
  "resize resample im sz =
     (case sz of (w, h) \<Rightarrow>
        if sz = (xsize im, ysize im) then Inr im
        else if w < 1 \<or> h < 1 then Inl ValueError
        else Inr \<lparr>xsize = w, ysize = h, pixel = resample im sz\<rparr>)"

section \<open>The colour extractors\<close>

text \<open>
  \<^verbatim>\<open>get_colors\<close> hands the image to ImageMagick (\<^verbatim>\<open>pil_to_wand\<close>,
  \<^verbatim>\<open>quantize(10)\<close>, \<^verbatim>\<open>unique_colors\<close>, \<^verbatim>\<open>wand_to_pil\<close>) and lists the pixels of the
  result. That pipeline is outside \<^verbatim>\<open>palette.py\<close>; it is the parameter \<open>magick\<close>.
\<close>

definition get_colors :: "(image \<Rightarrow> exn + rgb list) \<Rightarrow> image \<Rightarrow> exn + rgb list" where
  "get_colors magick img = magick img"

text \<open>The box \<^verbatim>\<open>(i * slices, 0, slices + (i * slices), height)\<close> of slice \<open>i\<close>.\<close>

definition slice_box :: "int \<Rightarrow> int \<Rightarrow> nat \<Rightarrow> int \<times> int \<times> int \<times> int" where
  "slice_box slices height i = (int i * slices, 0, slices + (int i * slices), height)"

text \<open>
  The loop \<^verbatim>\<open>for i in range(10)\<close> of \<^verbatim>\<open>get_colors_alt\<close>. ColorThief's
  \<^verbatim>\<open>get_color\<close> and \<^verbatim>\<open>get_palette\<close> are the parameters \<open>thief_color\<close> and
  \<open>thief_palette\<close>. \<^verbatim>\<open>get_most_diff\<close> never returns \<^verbatim>\<open>None\<close>, so the test
  \<^verbatim>\<open>new_color is not None\<close> always succeeds.
\<close>

fun alt_loop ::
  "(image \<Rightarrow> exn + rgb) \<Rightarrow> (image \<Rightarrow> exn + rgb list) \<Rightarrow> image \<Rightarrow> int \<Rightarrow> rgb list \<Rightarrow> nat list
     \<Rightarrow> exn + rgb list" where
  "alt_loop thief_color thief_palette img slices saved_colors [] = Inr saved_colors"
| "alt_loop thief_color thief_palette img slices saved_colors (i # rest) =
     (let cropped = crop img (slice_box slices (ysize img) i) in
      if i = 0 then
        (case thief_color cropped of
           Inl e \<Rightarrow> Inl e
         | Inr principal_color \<Rightarrow>
             alt_loop thief_color thief_palette img slices (saved_colors @ [principal_color]) rest)
      else
        (case thief_palette cropped of
           Inl e \<Rightarrow> Inl e
         | Inr new_colors \<Rightarrow>
             (case get_most_diff saved_colors new_colors of
                Inl e \<Rightarrow> Inl e
              | Inr new_color \<Rightarrow>
                  alt_loop thief_color thief_palette img slices
                    (saved_colors @ [color new_color]) rest)))"

definition get_colors_alt ::
  "(image \<Rightarrow> exn + rgb) \<Rightarrow> (image \<Rightarrow> exn + rgb list) \<Rightarrow> image \<Rightarrow> exn + rgb list" where
  "get_colors_alt thief_color thief_palette img =
     (let slices = py_int (int_truediv (xsize img) 10)
      in alt_loop thief_color thief_palette img slices [] [0..<10])"

text \<open>
  A box \<open>(left, upper, right, lower)\<close> of \<^verbatim>\<open>crop\<close> holds the pixel columns
  \<open>left \<le> x < right\<close>.
\<close>

definition column_in_box :: "int \<times> int \<times> int \<times> int \<Rightarrow> int \<Rightarrow> bool" where
  "column_in_box box x = (case box of (left, upper, right, lower) \<Rightarrow> left \<le> x \<and> x < right)"

text \<open>\<^verbatim>\<open>try: ... except TypeError: return image\<close>: only \<^verbatim>\<open>TypeError\<close> is caught.\<close>

definition try_except_TypeError :: "exn + image \<Rightarrow> image \<Rightarrow> exn + image" where
  "try_except_TypeError body img =
     (case body of Inl e \<Rightarrow> (if e = TypeError then Inr img else Inl e) | Inr r \<Rightarrow> Inr r)"

section \<open>\<^verbatim>\<open>get_palette_legacy\<close>\<close>

text \<open>
  The loop \<^verbatim>\<open>for color in range(len(palette))\<close> of the legacy layout; \<open>bg\<close> and
  \<open>next_x\<close> (the variable \<^verbatim>\<open>next_\<close> of the source) are the state it updates.
\<close>

fun legacy_loop ::
  "rgb list \<Rightarrow> int \<Rightarrow> int \<Rightarrow> int \<Rightarrow> image \<Rightarrow> int \<Rightarrow> nat list \<Rightarrow> exn + image" where
  "legacy_loop palette div_palette off_palette height_palette bg next_x [] = Inr bg"
| "legacy_loop palette div_palette off_palette height_palette bg next_x (i # rest) =
     (if i = 0 then
        (case Image_new (py_int (fmul (float_of_int div_palette) (float_lit (95 / 100))),
                         height_palette) (palette ! i) of
           Inl e \<Rightarrow> Inl e
         | Inr img_color \<Rightarrow>
             legacy_loop palette div_palette off_palette height_palette
               (paste bg img_color (0, 0)) (next_x + div_palette) rest)
      else
        (case Image_new (off_palette, height_palette) (palette ! i) of
           Inl e \<Rightarrow> Inl e
         | Inr img_color \<Rightarrow>
             legacy_loop palette div_palette off_palette height_palette
               (paste bg img_color (next_x, 0)) (next_x + div_palette) rest))"

text \<open>
  The extraction and the length test stand before the \<^verbatim>\<open>try\<close>, as does the creation of
  \<open>bg\<close>. A zero width or height makes one of the two float divisions raise
  \<^verbatim>\<open>ZeroDivisionError\<close>.
\<close>

definition get_palette_legacy ::
  "(image \<Rightarrow> exn + rgb list) \<Rightarrow> (image \<Rightarrow> exn + rgb) \<Rightarrow> (image \<Rightarrow> exn + rgb list)
     \<Rightarrow> (image \<Rightarrow> int \<times> int \<Rightarrow> int \<Rightarrow> int \<Rightarrow> rgb) \<Rightarrow> image \<Rightarrow> bool \<Rightarrow> exn + image" where
  "get_palette_legacy magick thief_color thief_palette resample img wand =
     (let width = xsize img; height = ysize img in
      case (if wand then get_colors magick else get_colors_alt thief_color thief_palette) img of
        Inl e \<Rightarrow> Inl e
      | Inr palette \<Rightarrow>
          if length palette < 10 then Inl NotEnoughColors
          else if width = 0 then Inl ZeroDivisionError
          else
            let divisor = fmul (int_truediv height width) (float_lit (55 / 10)) in
            if divisor = 0 then Inl ZeroDivisionError
            else
              let height_palette = py_int (fdiv (float_of_int height) divisor);
                  div_palette =
                    py_int (fmul (int_truediv width (int (length palette))) (float_lit (99 / 100)));
                  off_palette = py_int (fmul (float_of_int div_palette) (float_lit (95 / 100)))
              in (case Image_new
                        (width - py_int (fmul (float_of_int off_palette) (float_lit (2 / 10))),
                         height_palette)
                        white of
                    Inl e \<Rightarrow> Inl e
                  | Inr bg \<Rightarrow>
                      try_except_TypeError
                        (case legacy_loop palette div_palette off_palette height_palette bg 0
                                [0..<length palette] of
                           Inl e \<Rightarrow> Inl e
                         | Inr bg' \<Rightarrow>
                             (case resize resample bg' (width, height_palette) of
                                Inl e \<Rightarrow> Inl e
                              | Inr palette_img \<Rightarrow>
                                  let borders =
                                        py_int (fmul (float_of_int width) (float_lit (65 / 10000)));
                                      borders_total =
                                        (borders, borders, borders, height_palette + borders)
                                  in (case expand img borders_total white of
                                        Inl e \<Rightarrow> Inl e
                                      | Inr bordered_original \<Rightarrow>
                                          (case expand palette_img (0, borders, 0, borders) white of
                                             Inl e \<Rightarrow> Inl e
                                           | Inr bordered_palette \<Rightarrow>
                                               Inr (paste bordered_original bordered_palette
                                                      (borders, height))))))
                        img))"

section \<open>\<^verbatim>\<open>get_palette\<close>\<close>

text \<open>
  The border in pixels: \<^verbatim>\<open>int(w * border)\<close>, less \<^verbatim>\<open>int((w / h) * 4)\<close> when
  \<^verbatim>\<open>w / h > 2.1\<close>. The argument \<open>border\<close> is the value of the float that the caller
  passes.
\<close>

definition border_size :: "int \<Rightarrow> int \<Rightarrow> rat \<Rightarrow> int" where
  "border_size w h border =
     (let b = py_int (fmul (float_of_int w) border)
      in if int_truediv w h > float_lit (21 / 10)
         then b - py_int (fmul (int_truediv w h) (float_of_int 4))
         else b)"

text \<open>
  The rectangle that iteration \<open>i\<close> of the strip loop creates: where it is pasted and how
  wide it is. The first branch pastes at \<open>(0, 0)\<close>, the branch of the last colour adds
  \<open>leftover\<close> to the width, the remaining branch computes a \<open>leftover\<close> that it never
  uses.
\<close>

definition segment :: "rgb list \<Rightarrow> int \<Rightarrow> int \<Rightarrow> int \<Rightarrow> nat \<Rightarrow> (int \<times> int) \<times> int" where
  "segment palette w div_palette next_x i =
     (if i = 0 then ((0, 0), div_palette)
      else if int i = int (length palette) - 1 then
        (let leftover = py_int (int_truediv (w - (div_palette * (int (length palette) - 1))) 2)
         in ((next_x, 0), div_palette + leftover))
      else ((next_x, 0), div_palette))"

text \<open>
  The loop \<^verbatim>\<open>for color in range(len(palette))\<close>: every branch creates its rectangle
  with \<^verbatim>\<open>Image.new\<close>, pastes it onto \<open>bg\<close> and advances \<open>next_x\<close> by \<open>div_palette\<close>.
\<close>

fun strip_loop ::
  "rgb list \<Rightarrow> int \<Rightarrow> int \<Rightarrow> int \<Rightarrow> image \<Rightarrow> int \<Rightarrow> nat list \<Rightarrow> exn + image" where
  "strip_loop palette w div_palette border_px bg next_x [] = Inr bg"
| "strip_loop palette w div_palette border_px bg next_x (i # rest) =
     (case segment palette w div_palette next_x i of
        (pos, seg_w) \<Rightarrow>
          (case Image_new (seg_w, border_px) (palette ! i) of
             Inl e \<Rightarrow> Inl e
           | Inr img_color \<Rightarrow>
               strip_loop palette w div_palette border_px (paste bg img_color pos)
                 (next_x + div_palette) rest))"


text \<open>
  The composition of \<^verbatim>\<open>get_palette\<close>, from \<^verbatim>\<open>w, h = image.size\<close> on. The canvas
  \<open>bg\<close> is created before the \<^verbatim>\<open>try\<close>; the loop, \<^verbatim>\<open>ImageOps.expand\<close> and the
  final \<^verbatim>\<open>paste\<close> are inside it. A zero height makes \<^verbatim>\<open>w / h\<close> raise
  \<^verbatim>\<open>ZeroDivisionError\<close>, as an empty palette would make \<^verbatim>\<open>new_w / len(palette)\<close>
  (\<^verbatim>\<open>get_palette\<close> never passes one).
\<close>

definition compose_layout :: "rgb list \<Rightarrow> image \<Rightarrow> rat \<Rightarrow> exn + image" where
  "compose_layout palette img border =
     (let w = xsize img; h = ysize img in
      if h = 0 \<or> palette = [] then Inl ZeroDivisionError
      else
        let border_px = border_size w h border;
            new_w = w + (border_px * 2);
            div_palette = py_int (int_truediv new_w (int (length palette)))
        in (case Image_new (new_w, border_px) white of
              Inl e \<Rightarrow> Inl e
            | Inr bg \<Rightarrow>
                try_except_TypeError
                  (case strip_loop palette w div_palette border_px bg 0 [0..<length palette] of
                     Inl e \<Rightarrow> Inl e
                   | Inr bg' \<Rightarrow>
                       (case expand img (border_px, border_px, border_px, 0) (palette ! 0) of
                          Inl e \<Rightarrow> Inl e
                        | Inr bordered \<Rightarrow> Inr (paste bordered bg' (0, h))))
                  img))"

text \<open>
  Any exception of the extractor is caught and the image returned; \<^verbatim>\<open>clean_colors\<close>
  is called with its default tolerance 2, and \<^verbatim>\<open>not palette\<close> holds for \<^verbatim>\<open>None\<close>
  and for the empty list.
\<close>

definition get_palette ::
  "(image \<Rightarrow> exn + rgb list) \<Rightarrow> (image \<Rightarrow> exn + rgb) \<Rightarrow> (image \<Rightarrow> exn + rgb list)
     \<Rightarrow> image \<Rightarrow> rat \<Rightarrow> bool \<Rightarrow> exn + image" where
  "get_palette magick thief_color thief_palette img border wand =
     (case (if wand then get_colors magick else get_colors_alt thief_color thief_palette) img of
        Inl e \<Rightarrow> Inr img
      | Inr colors \<Rightarrow>
          (case clean_colors colors 2 of
             None \<Rightarrow> Inr img
           | Some palette \<Rightarrow>
               if palette = [] then Inr img
               else compose_layout palette img border))"

text \<open>The default \<^verbatim>\<open>border=0.015\<close> of \<^verbatim>\<open>get_palette\<close>.\<close>

definition default_border :: rat where
  "default_border = float_lit (15 / 1000)"


text \<open>
  The width that the specification gives for the result of the modern layout:
  \<open>inputWidth + 2 * round (inputWidth * borderFraction)\<close>, the border being reduced by the
  wide-image adjustment when \<open>width / height > 2.1\<close>. Here \<open>round\<close> is Python's
  \<^verbatim>\<open>round\<close>, rounding to the nearest integer.
\<close>

definition spec_output_width :: "int \<Rightarrow> int \<Rightarrow> rat \<Rightarrow> int" where
  "spec_output_width w h border =
     (let b = round_half_even (fmul (float_of_int w) border)
      in if int_truediv w h > float_lit (21 / 10)
         then w + 2 * (b - py_int (fmul (int_truediv w h) (float_of_int 4)))
         else w + 2 * b)"

section \<open>Sample inputs\<close>

text \<open>
  Concrete inputs for evaluating the functions above: an image of one colour, extractors
  that return a given palette or colour, palettes of six and of ten dark colours, and a
  nearest-neighbour filter for \<^verbatim>\<open>resize\<close>.
\<close>

definition solid :: "int \<Rightarrow> int \<Rightarrow> rgb \<Rightarrow> image" where
  "solid w h c = \<lparr>xsize = w, ysize = h, pixel = (\<lambda>x y. c)\<rparr>"

definition fixed_colors :: "rgb list \<Rightarrow> image \<Rightarrow> exn + rgb list" where
  "fixed_colors cs img = Inr cs"

definition fixed_color :: "rgb \<Rightarrow> image \<Rightarrow> exn + rgb" where
  "fixed_color c img = Inr c"

definition six_colors :: "rgb list" where
  "six_colors =
     [(10, 20, 30), (40, 50, 60), (70, 80, 90), (100, 110, 120), (130, 140, 150), (15, 25, 35)]"

definition ten_colors :: "rgb list" where
  "ten_colors =
     [(10, 20, 30), (40, 50, 60), (70, 80, 90), (100, 110, 120), (130, 140, 150),
      (15, 25, 35), (45, 55, 65), (75, 85, 95), (105, 115, 125), (135, 145, 155)]"

definition nearest :: "image \<Rightarrow> int \<times> int \<Rightarrow> int \<Rightarrow> int \<Rightarrow> rgb" where
  "nearest im sz x y = pixel im (x * xsize im div fst sz) (y * ysize im div snd sz)"

text \<open>
  An image whose pixel at \<open>(x, y)\<close> has the colour \<open>(x, y, 0)\<close>, and extractors that
  report what they were given: the red channel of the top-left and of the top-right pixel
  of the crop, that is the first and the last column of the image that the crop holds, and
  the width of the crop.
\<close>

definition ramp :: "int \<Rightarrow> int \<Rightarrow> image" where
  "ramp w h = \<lparr>xsize = w, ysize = h, pixel = (\<lambda>x y. (x, y, 0))\<rparr>"

definition probe :: "image \<Rightarrow> rgb" where
  "probe im = (fst (pixel im 0 0), fst (pixel im (xsize im - 1) 0), xsize im)"

definition probe_color :: "image \<Rightarrow> exn + rgb" where
  "probe_color im = Inr (probe im)"

definition probe_palette :: "image \<Rightarrow> exn + rgb list" where
  "probe_palette im = Inr [probe im]"

section \<open>Properties of \<^verbatim>\<open>clean_colors\<close>\<close>

lemma white_hits_count: "white_hits c = int (length (filter (\<lambda>v. 160 < v) (channels c)))"
  by (cases c) (simp add: white_hits_def channels_def)

lemma clean_scan_prefix: "prefix (clean_scan colors t js) colors"
  by (induction js) (simp_all add: take_is_prefix)

lemma clean_scan_take: "\<exists>k. (k \<in> set js \<or> k = length colors) \<and> clean_scan colors t js = take k colors"
  by (induction js) auto

lemma clean_scan_none:
  "\<forall>i\<in>set js. white_hits (colors ! i) \<le> t \<Longrightarrow> clean_scan colors t js = colors"
  by (induction js) simp_all

lemma clean_scan_first:
  "\<forall>j\<in>set js. white_hits (colors ! j) \<le> t \<Longrightarrow> t < white_hits (colors ! i) \<Longrightarrow>
     clean_scan colors t (js @ i # rest) = take i colors"
  by (induction js) simp_all

lemma upt_split: "a \<le> i \<Longrightarrow> i < b \<Longrightarrow> [a..<b] = [a..<i] @ i # [Suc i..<b]"
proof -
  assume a: "a \<le> i" and b: "i < b"
  from b obtain k where k: "b = i + k" using less_imp_add_positive by blast
  have "[a..<i + k] = [a..<i] @ [i..<i + k]" using a by (rule upt_add_eq_append)
  then show ?thesis using k b by (simp add: upt_conv_Cons)
qed

text \<open>
  C7: for a list of at least 6 colours, \<^verbatim>\<open>clean_colors\<close> counts for each colour from
  index 5 on how many of its channels exceed 160; at the first index whose count exceeds
  the tolerance it returns the colours strictly before that index, and when there is no
  such index it returns the whole list. The first five colours are always kept.
\<close>

theorem clean_colors_scan:
  assumes "6 \<le> length colors"
  shows "(\<forall>c. white_hits c = int (length (filter (\<lambda>v. 160 < v) (channels c))))
    \<and> (\<forall>i. 5 \<le> i \<and> i < length colors \<and> tolerancy < white_hits (colors ! i)
            \<and> (\<forall>j. 5 \<le> j \<and> j < i \<longrightarrow> white_hits (colors ! j) \<le> tolerancy)
          \<longrightarrow> clean_colors colors tolerancy = Some (take i colors))
    \<and> ((\<forall>i. 5 \<le> i \<and> i < length colors \<longrightarrow> white_hits (colors ! i) \<le> tolerancy)
          \<longrightarrow> clean_colors colors tolerancy = Some colors)
    \<and> (\<exists>r. clean_colors colors tolerancy = Some r \<and> take 5 r = take 5 colors)"
proof (intro conjI allI impI)
  fix c show "white_hits c = int (length (filter (\<lambda>v. 160 < v) (channels c)))"
    by (rule white_hits_count)
next
  fix i
  assume h: "5 \<le> i \<and> i < length colors \<and> tolerancy < white_hits (colors ! i)
            \<and> (\<forall>j. 5 \<le> j \<and> j < i \<longrightarrow> white_hits (colors ! j) \<le> tolerancy)"
  then have "[5..<length colors] = [5..<i] @ i # [Suc i..<length colors]"
    by (simp add: upt_split)
  moreover have "\<forall>j\<in>set [5..<i]. white_hits (colors ! j) \<le> tolerancy"
    using h by simp
  ultimately have "clean_scan colors tolerancy [5..<length colors] = take i colors"
    using h clean_scan_first by simp
  then show "clean_colors colors tolerancy = Some (take i colors)"
    using assms by (simp add: clean_colors_def)
next
  assume "\<forall>i. 5 \<le> i \<and> i < length colors \<longrightarrow> white_hits (colors ! i) \<le> tolerancy"
  then have "\<forall>i\<in>set [5..<length colors]. white_hits (colors ! i) \<le> tolerancy"
    by simp
  then have "clean_scan colors tolerancy [5..<length colors] = colors"
    by (rule clean_scan_none)
  then show "clean_colors colors tolerancy = Some colors"
    using assms by (simp add: clean_colors_def)
next
  obtain k where k: "k \<in> set [5..<length colors] \<or> k = length colors"
    and r: "clean_scan colors tolerancy [5..<length colors] = take k colors"
    using clean_scan_take by blast
  from k assms have "5 \<le> k" by auto
  then have "take 5 (take k colors) = take 5 colors" by (simp add: min_def)
  then show "\<exists>r. clean_colors colors tolerancy = Some r \<and> take 5 r = take 5 colors"
    using assms r by (simp add: clean_colors_def)
qed

text \<open>
  Witness for C7: a palette of eight colours whose entry at index 6 has three bright
  channels is cut there (the bright entry at index 4 stays), and one whose entry at
  index 6 has only two bright channels is returned whole.
\<close>

theorem clean_colors_scan_witness:
  "6 \<le> length [(1,1,1),(2,2,2),(3,3,3),(4,4,4),(255,255,255),(6,6,6),(200,170,161),(8,8,8::int)]
   \<and> clean_colors [(1,1,1),(2,2,2),(3,3,3),(4,4,4),(255,255,255),(6,6,6),(200,170,161),(8,8,8)] 2
       = Some [(1,1,1),(2,2,2),(3,3,3),(4,4,4),(255,255,255),(6,6,6)]
   \<and> clean_colors [(1,1,1),(2,2,2),(3,3,3),(4,4,4),(255,255,255),(6,6,6),(200,170,160),(8,8,8)] 2
       = Some [(1,1,1),(2,2,2),(3,3,3),(4,4,4),(255,255,255),(6,6,6),(200,170,160),(8,8,8)]"
proof -
  let ?cs = "[(1,1,1),(2,2,2),(3,3,3),(4,4,4),(255,255,255),(6,6,6),(200,170,161),(8,8,8)] :: rgb list"
  let ?ds = "[(1,1,1),(2,2,2),(3,3,3),(4,4,4),(255,255,255),(6,6,6),(200,170,160),(8,8,8)] :: rgb list"
  have len: "6 \<le> length ?cs" by simp
  have lend: "6 \<le> length ?ds" by simp
  have j5: "\<And>j::nat. 5 \<le> j \<and> j < 6 \<Longrightarrow> j = 5" by arith
  have cut: "5 \<le> (6::nat) \<and> 6 < length ?cs \<and> 2 < white_hits (?cs ! 6)
               \<and> (\<forall>j. 5 \<le> j \<and> j < 6 \<longrightarrow> white_hits (?cs ! j) \<le> 2)"
    using j5 by (auto simp: white_hits_def channels_def)
  have a: "clean_colors ?cs 2 = Some (take 6 ?cs)"
    using clean_colors_scan [OF len, of 2] cut by blast
  have nocut: "\<forall>i. 5 \<le> i \<and> i < length ?ds \<longrightarrow> white_hits (?ds ! i) \<le> 2"
  proof (intro allI impI)
    fix i :: nat assume "5 \<le> i \<and> i < length ?ds"
    then have "i = 5 \<or> i = 6 \<or> i = 7" by auto
    then show "white_hits (?ds ! i) \<le> 2" by (auto simp: white_hits_def channels_def)
  qed
  have b: "clean_colors ?ds 2 = Some ?ds"
    using clean_colors_scan [OF lend, of 2] nocut by blast
  show ?thesis using len a b by simp
qed

text \<open>
  C10: whenever \<^verbatim>\<open>clean_colors\<close> returns a list, its input has at least 6 colours and
  the result is a prefix of the input of length at least 5: the input cut at some index
  from 5 on, or the whole input.
\<close>

theorem clean_colors_prefix:
  assumes "clean_colors colors tolerancy = Some r"
  shows "6 \<le> length colors \<and> prefix r colors \<and> 5 \<le> length r
           \<and> (\<exists>k. 5 \<le> k \<and> r = take k colors)"
proof -
  from assms have len: "6 \<le> length colors"
    and r: "r = clean_scan colors tolerancy [5..<length colors]"
    by (auto simp: clean_colors_def split: if_splits)
  obtain k where k: "k \<in> set [5..<length colors] \<or> k = length colors"
    and rk: "r = take k colors"
    using clean_scan_take r by blast
  from k len have k5: "5 \<le> k" by auto
  with rk len have "5 \<le> length r" by simp
  moreover have "prefix r colors" using rk by (simp add: take_is_prefix)
  ultimately show ?thesis using len k5 rk by blast
qed

text \<open>Witness for C10: the palette of eight colours that is cut at index 6.\<close>

theorem clean_colors_prefix_witness:
  "clean_colors [(1,1,1),(2,2,2),(3,3,3),(4,4,4),(255,255,255),(6,6,6),(200,170,161),(8,8,8)] 2
       = Some [(1,1,1),(2,2,2),(3,3,3),(4,4,4),(255,255,255),(6,6,6)]
   \<and> prefix ([(1,1,1),(2,2,2),(3,3,3),(4,4,4),(255,255,255),(6,6,6)] :: rgb list)
        [(1,1,1),(2,2,2),(3,3,3),(4,4,4),(255,255,255),(6,6,6),(200,170,161),(8,8,8)]"
proof -
  have h: "clean_colors [(1,1,1),(2,2,2),(3,3,3),(4,4,4),(255,255,255),(6,6,6),(200,170,161),(8,8,8)] 2
       = Some [(1,1,1),(2,2,2),(3,3,3),(4,4,4),(255,255,255),(6,6,6)]"
    by (simp add: clean_colors_def white_hits_def channels_def upt_conv_Cons)
  from clean_colors_prefix [OF h] h show ?thesis by blast
qed

text \<open>
  C4 as stated fails: on a list of fewer than 6 colours \<^verbatim>\<open>clean_colors\<close> does not
  return the list.
\<close>

theorem clean_colors_short_counterexample:
  "clean_colors [(10, 20, 30), (200, 200, 200)] 2 \<noteq> Some [(10, 20, 30), (200, 200, 200)]"
  by (simp add: clean_colors_def)

text \<open>
  C4, amended: for every list of fewer than 6 colours and every tolerance,
  \<^verbatim>\<open>clean_colors\<close> returns \<^verbatim>\<open>None\<close>, no list at all; and \<^verbatim>\<open>get_palette\<close>, when the
  extractor gives it such a list, returns the input image itself.
\<close>

theorem clean_colors_short:
  assumes "length colors < 6"
  shows "clean_colors colors tolerancy = None
    \<and> ((if wand then get_colors magick else get_colors_alt thief_color thief_palette) img
          = Inr colors
        \<longrightarrow> get_palette magick thief_color thief_palette img border wand = Inr img)"
  using assms by (simp add: clean_colors_def get_palette_def)

text \<open>Witness for the amended C4: a list of two colours.\<close>

theorem clean_colors_short_witness:
  "length [(10, 20, 30), (200, 200, 200 :: int)] < 6
   \<and> clean_colors [(10, 20, 30), (200, 200, 200)] 2 = None
   \<and> get_colors (fixed_colors [(10, 20, 30), (200, 200, 200)]) (solid 40 30 (0, 0, 0))
       = Inr [(10, 20, 30), (200, 200, 200)]
   \<and> get_palette (fixed_colors [(10, 20, 30), (200, 200, 200)]) (fixed_color (0, 0, 0))
        (fixed_colors []) (solid 40 30 (0, 0, 0)) default_border True
       = Inr (solid 40 30 (0, 0, 0))"
proof -
  let ?cs = "[(10, 20, 30), (200, 200, 200)] :: rgb list"
  have l: "length ?cs < 6" by simp
  have e: "(if True then get_colors (fixed_colors ?cs)
            else get_colors_alt (fixed_color (0, 0, 0)) (fixed_colors [])) (solid 40 30 (0, 0, 0))
           = Inr ?cs"
    by (simp add: get_colors_def fixed_colors_def)
  from clean_colors_short [OF l, of 2 True "fixed_colors ?cs" "fixed_color (0, 0, 0)"
      "fixed_colors []" "solid 40 30 (0, 0, 0)" default_border] e l
  show ?thesis by simp
qed

section \<open>Properties of \<^verbatim>\<open>get_most_diff\<close>\<close>

lemma diff_hits_foldl:
  "foldl (\<lambda>h saved. if \<bar>fst new - fst saved\<bar> > 10 then h + 1 else h) a saved_colors
     = a + int (length (filter (\<lambda>s. 10 < \<bar>fst new - fst s\<bar>) saved_colors))"
  by (induction saved_colors arbitrary: a) simp_all

lemma diff_hits_count:
  "diff_hits saved_colors new = int (length (filter (\<lambda>s. 10 < \<bar>fst new - fst s\<bar>) saved_colors))"
  by (simp add: diff_hits_def diff_hits_foldl)

lemma last_filter_keep: "xs \<noteq> [] \<Longrightarrow> P (last xs) \<Longrightarrow> last (filter P xs) = last xs"
  by (induction xs) (auto simp: filter_empty_conv)

lemma sorted_reverse_hd:
  assumes "xs \<noteq> []"
  shows "\<exists>us y vs. xs = us @ y # vs \<and> sorted_reverse k xs \<noteq> [] \<and> hd (sorted_reverse k xs) = y
           \<and> (\<forall>u\<in>set us. k u < k y) \<and> (\<forall>v\<in>set vs. k v \<le> k y)"
proof -
  define ys where "ys = sort_key k (rev xs)"
  have ne: "ys \<noteq> []" using assms unfolding ys_def by (metis length_sort length_rev length_0_conv)
  define m where "m = k (last ys)"
  have srt: "sorted (map k ys)" unfolding ys_def by simp
  have le: "\<forall>y\<in>set ys. k y \<le> m"
  proof
    fix y assume "y \<in> set ys"
    have "ys = butlast ys @ [last ys]" using ne by simp
    then have "sorted (map k (butlast ys) @ [k (last ys)])" using srt by (metis map_append list.simps(8,9))
    then have "\<forall>z\<in>set (butlast ys). k z \<le> k (last ys)" by (auto simp: sorted_append)
    then show "k y \<le> m" using \<open>y \<in> set ys\<close> \<open>ys = butlast ys @ [last ys]\<close> unfolding m_def
      by (metis Un_iff empty_iff empty_set insert_iff list.simps(15) order_refl set_append)
  qed
  have st: "filter (\<lambda>y. k y = m) ys = rev (filter (\<lambda>y. k y = m) xs)"
    unfolding ys_def by (simp add: sort_key_stable rev_filter)
  have "last (filter (\<lambda>y. k y = m) ys) = last ys"
    using ne by (simp add: last_filter_keep m_def)
  moreover have fne: "filter (\<lambda>y. k y = m) ys \<noteq> []"
    using ne by (metis (mono_tags, lifting) filter_empty_conv last_in_set m_def)
  ultimately have hdf: "hd (filter (\<lambda>y. k y = m) xs) = last ys"
    using st by (metis last_rev rev_rev_ident)
  from fne st have "filter (\<lambda>y. k y = m) xs \<noteq> []" by simp
  then obtain y zs where f: "filter (\<lambda>y. k y = m) xs = y # zs" by (cases "filter (\<lambda>y. k y = m) xs") auto
  then obtain us vs where d: "xs = us @ y # vs" "\<forall>u\<in>set us. k u \<noteq> m" "k y = m"
    by (auto simp: filter_eq_Cons_iff)
  have "y = last ys" using f hdf by simp
  have sety: "set ys = set xs" unfolding ys_def by simp
  have "\<forall>u\<in>set us. k u < k y" using d le sety by (metis Un_iff order_le_less set_append)
  moreover have "\<forall>v\<in>set vs. k v \<le> k y" using d le sety by (metis Un_iff list.set_intros(2) set_append)
  moreover have "hd (sorted_reverse k xs) = y" using \<open>y = last ys\<close> by (simp add: sorted_reverse_def ys_def hd_rev)
  moreover have "sorted_reverse k xs \<noteq> []" using ne by (simp add: sorted_reverse_def ys_def)
  ultimately show ?thesis using d(1) by blast
qed

text \<open>
  C8: for a non-empty list of candidates, \<^verbatim>\<open>get_most_diff\<close> gives every candidate the
  number of saved colours whose red channel differs from its own by more than 10, and
  returns a candidate with the greatest such number; among several it returns the one
  that comes first in the candidate list.
\<close>

theorem get_most_diff_first_max:
  assumes "new_colors \<noteq> []"
  shows "(\<forall>c. diff_hits saved_colors c
              = int (length (filter (\<lambda>s. 10 < \<bar>fst c - fst s\<bar>) saved_colors)))
    \<and> (\<exists>i<length new_colors.
          get_most_diff saved_colors new_colors
            = Inr \<lparr>color = new_colors ! i, hits = diff_hits saved_colors (new_colors ! i)\<rparr>
        \<and> (\<forall>j<length new_colors.
               diff_hits saved_colors (new_colors ! j) \<le> diff_hits saved_colors (new_colors ! i))
        \<and> (\<forall>j<i. diff_hits saved_colors (new_colors ! j) < diff_hits saved_colors (new_colors ! i)))"
proof
  show "\<forall>c. diff_hits saved_colors c
              = int (length (filter (\<lambda>s. 10 < \<bar>fst c - fst s\<bar>) saved_colors))"
    by (simp add: diff_hits_count)
next
  define mk where "mk = (\<lambda>new. \<lparr>color = new, hits = diff_hits saved_colors new\<rparr>)"
  define cs where "cs = map mk new_colors"
  have ne: "cs \<noteq> []" using assms by (simp add: cs_def)
  obtain us y vs where d: "cs = us @ y # vs" "sorted_reverse hits cs \<noteq> []"
    "hd (sorted_reverse hits cs) = y" "\<forall>u\<in>set us. hits u < hits y" "\<forall>v\<in>set vs. hits v \<le> hits y"
    using sorted_reverse_hd [OF ne, of hits] by blast
  define i where "i = length us"
  have il: "i < length new_colors" using d(1) by (metis cs_def i_def length_map length_append
        length_Cons less_add_Suc1 add_Suc_right)
  have yi: "y = cs ! i" using d(1) by (simp add: i_def)
  then have ymk: "y = mk (new_colors ! i)" using il by (simp add: cs_def)
  have res: "get_most_diff saved_colors new_colors = Inr y"
    using d(2,3) by (cases "sorted_reverse hits cs") (simp_all add: get_most_diff_def cs_def mk_def)
  have hk: "\<And>j. j < length new_colors \<Longrightarrow> hits (cs ! j) = diff_hits saved_colors (new_colors ! j)"
    by (simp add: cs_def mk_def)
  have all: "\<forall>j<length new_colors. hits (cs ! j) \<le> hits y"
  proof (intro allI impI)
    fix j assume j: "j < length new_colors"
    then have "cs ! j \<in> set cs" by (simp add: cs_def)
    then have "cs ! j \<in> set us \<or> cs ! j = y \<or> cs ! j \<in> set vs" using d(1) by auto
    then show "hits (cs ! j) \<le> hits y" using d(4,5) by (auto simp: less_imp_le)
  qed
  have before: "\<forall>j<i. hits (cs ! j) < hits y"
  proof (intro allI impI)
    fix j assume j: "j < i"
    then have "cs ! j = us ! j" using d(1) by (simp add: i_def nth_append)
    then show "hits (cs ! j) < hits y" using d(4) j by (simp add: i_def)
  qed
  have hy: "hits y = diff_hits saved_colors (new_colors ! i)" using ymk by (simp add: mk_def)
  show "\<exists>i<length new_colors.
          get_most_diff saved_colors new_colors
            = Inr \<lparr>color = new_colors ! i, hits = diff_hits saved_colors (new_colors ! i)\<rparr>
        \<and> (\<forall>j<length new_colors.
               diff_hits saved_colors (new_colors ! j) \<le> diff_hits saved_colors (new_colors ! i))
        \<and> (\<forall>j<i. diff_hits saved_colors (new_colors ! j) < diff_hits saved_colors (new_colors ! i))"
  proof (intro exI [of _ i] conjI)
    show "i < length new_colors" by (rule il)
    show "get_most_diff saved_colors new_colors
            = Inr \<lparr>color = new_colors ! i, hits = diff_hits saved_colors (new_colors ! i)\<rparr>"
      using res ymk by (simp add: mk_def)
    show "\<forall>j<length new_colors.
               diff_hits saved_colors (new_colors ! j) \<le> diff_hits saved_colors (new_colors ! i)"
      using all hk hy by simp
    show "\<forall>j<i. diff_hits saved_colors (new_colors ! j) < diff_hits saved_colors (new_colors ! i)"
      using before hk hy il by simp
  qed
qed

text \<open>
  Witness for C8: the candidates score 1, 2, 2 and 1 against the two saved colours; the
  first of the two with score 2 is returned.
\<close>

theorem get_most_diff_first_max_witness:
  "([(5, 1, 1), (50, 2, 2), (60, 3, 3), (95, 4, 4)] :: rgb list) \<noteq> []
   \<and> get_most_diff [(0, 0, 0), (100, 0, 0)] [(5, 1, 1), (50, 2, 2), (60, 3, 3), (95, 4, 4)]
       = Inr \<lparr>color = (50, 2, 2), hits = 2\<rparr>
   \<and> (\<exists>i<length ([(5, 1, 1), (50, 2, 2), (60, 3, 3), (95, 4, 4)] :: rgb list).
         get_most_diff [(0, 0, 0), (100, 0, 0)] [(5, 1, 1), (50, 2, 2), (60, 3, 3), (95, 4, 4)]
           = Inr \<lparr>color = [(5, 1, 1), (50, 2, 2), (60, 3, 3), (95, 4, 4)] ! i,
                  hits = diff_hits [(0, 0, 0), (100, 0, 0)]
                           ([(5, 1, 1), (50, 2, 2), (60, 3, 3), (95, 4, 4)] ! i)\<rparr>)"
proof -
  let ?new = "[(5, 1, 1), (50, 2, 2), (60, 3, 3), (95, 4, 4)] :: rgb list"
  have ne: "?new \<noteq> []" by simp
  have v: "get_most_diff [(0, 0, 0), (100, 0, 0)] ?new = Inr \<lparr>color = (50, 2, 2), hits = 2\<rparr>"
    by (simp add: get_most_diff_def sorted_reverse_def diff_hits_def)
  from get_most_diff_first_max [OF ne, of "[(0, 0, 0), (100, 0, 0)]"]
  have "\<exists>i<length ?new.
         get_most_diff [(0, 0, 0), (100, 0, 0)] ?new
           = Inr \<lparr>color = ?new ! i, hits = diff_hits [(0, 0, 0), (100, 0, 0)] (?new ! i)\<rparr>"
    by blast
  with ne v show ?thesis by blast
qed

section \<open>Evaluating and bounding the float operations\<close>

lemma floor_rat_numeral_div:
  "\<lfloor>numeral a / numeral b :: rat\<rfloor> = numeral a div numeral b"
  by (metis floor_divide_of_int_eq of_int_numeral)

lemma ceiling_rat_numeral_div:
  "\<lceil>numeral a / numeral b :: rat\<rceil> = - (- numeral a div numeral b)"
  by (metis ceiling_divide_eq_div of_int_numeral)

lemmas float_eval =
  fl_def ilog2_def pow2_def round_half_even_def py_int_def bit_length.simps
  float_lit_def float_of_int_def fmul_def fdiv_def int_truediv_def default_border_def
  floor_rat_numeral_div ceiling_rat_numeral_div Let_def

lemma pow2_pos: "0 < pow2 e"
  by (simp add: pow2_def)

lemma round_half_even_nonneg: "0 \<le> q \<Longrightarrow> 0 \<le> round_half_even q"
proof -
  assume "0 \<le> q"
  then have "0 \<le> \<lfloor>q\<rfloor>" by simp
  then show ?thesis by (simp add: round_half_even_def Let_def)
qed

lemma fl_nonneg: "0 \<le> x \<Longrightarrow> 0 \<le> fl x"
proof -
  assume x: "0 \<le> x"
  show ?thesis
  proof (cases "x = 0")
    case True then show ?thesis by (simp add: fl_def)
  next
    case False
    let ?e = "ilog2 \<bar>x\<bar> - 52"
    have "0 \<le> \<bar>x\<bar> / pow2 ?e" using pow2_pos [of ?e] by simp
    then have "0 \<le> round_half_even (\<bar>x\<bar> / pow2 ?e)" by (rule round_half_even_nonneg)
    then have "0 \<le> sgn x * of_int (round_half_even (\<bar>x\<bar> / pow2 ?e)) * pow2 ?e"
      using x False pow2_pos [of ?e] by (simp add: sgn_if)
    then show ?thesis using False by (simp add: fl_def Let_def)
  qed
qed

lemma py_int_nonneg: "0 \<le> q \<Longrightarrow> 0 \<le> py_int q"
  by (simp add: py_int_def)

lemma slices_nonneg: "0 \<le> w \<Longrightarrow> 0 \<le> py_int (int_truediv w 10)"
proof -
  assume "0 \<le> w"
  then have "0 \<le> (of_int w / of_int 10 :: rat)" by simp
  then have "0 \<le> int_truediv w 10" unfolding int_truediv_def by (rule fl_nonneg)
  then show ?thesis by (rule py_int_nonneg)
qed

section \<open>Properties of \<^verbatim>\<open>get_colors_alt\<close>\<close>

lemma slice_index:
  assumes "0 < s" "0 \<le> x"
  shows "(int i * s \<le> x \<and> x < s + int i * s) = (i = nat (x div s))"
proof
  assume h: "int i * s \<le> x \<and> x < s + int i * s"
  have "x = s * int i + (x - s * int i)" by simp
  moreover have "0 \<le> x - s * int i" using h by (simp add: mult.commute)
  moreover have "x - s * int i < s" using h by (simp add: mult.commute)
  ultimately have "x div s = int i" by (rule int_div_pos_eq)
  then show "i = nat (x div s)" by simp
next
  assume i: "i = nat (x div s)"
  have nn: "0 \<le> x div s" using assms by (simp add: pos_imp_zdiv_nonneg_iff)
  then have e: "int i = x div s" using i by simp
  have d: "x = s * (x div s) + x mod s" by simp
  have m: "0 \<le> x mod s" "x mod s < s" using assms by simp_all
  from d m have "s * (x div s) \<le> x" "x < s + s * (x div s)" by linarith+
  then show "int i * s \<le> x \<and> x < s + int i * s" using e by (simp add: mult.commute)
qed

lemma slice_unique:
  assumes "0 \<le> x" "x < 10 * s"
  shows "\<exists>!i. i < 10 \<and> column_in_box (slice_box s h i) x"
proof -
  have s: "0 < s" using assms by arith
  have d: "x = s * (x div s) + x mod s" by simp
  have m: "0 \<le> x mod s" using s by simp
  from d m assms(2) have "s * (x div s) < s * 10" by linarith
  then have "x div s < 10" using s by (simp only: mult_less_cancel_left_pos)
  moreover have "0 \<le> x div s" using assms s by (simp add: pos_imp_zdiv_nonneg_iff)
  ultimately have k: "nat (x div s) < 10" by simp
  have "\<And>i. column_in_box (slice_box s h i) x = (i = nat (x div s))"
    using slice_index [OF s assms(1)] by (simp add: column_in_box_def slice_box_def)
  then show ?thesis using k by auto
qed

lemma slice_none:
  assumes "0 \<le> s" "10 * s \<le> x" "i < 10"
  shows "\<not> column_in_box (slice_box s h i) x"
proof -
  have "int i + 1 \<le> 10" using assms(3) by simp
  then have "(int i + 1) * s \<le> 10 * s" using assms(1) by (rule mult_right_mono)
  then have "\<not> (x < s + int i * s)" using assms(2) by (simp add: algebra_simps)
  then show ?thesis by (simp add: column_in_box_def slice_box_def)
qed

lemma crop_slice:
  assumes "0 \<le> s"
  shows "xsize (crop img (slice_box s h i)) = s \<and> ysize (crop img (slice_box s h i)) = h
   \<and> (\<forall>x y. 0 \<le> x \<and> 0 \<le> y \<and> y < ysize img \<and> int i * s + x < xsize img
         \<longrightarrow> pixel (crop img (slice_box s h i)) x y = pixel img (int i * s + x) y)"
proof -
  have "0 \<le> int i * s" using assms by simp
  then show ?thesis by (auto simp: crop_def slice_box_def add.commute)
qed

text \<open>
  What the loop leaves behind: the list grows by one colour for each index, the colour of
  index 0 is what \<open>thief_color\<close> returns for the crop of slice 0, and the colour of any other
  index is what \<^verbatim>\<open>get_most_diff\<close> picks, against the colours saved before it, from what
  \<open>thief_palette\<close> returns for the crop of that slice.
\<close>

lemma alt_loop_colours:
  "alt_loop tc tp img s saved js = Inr r \<Longrightarrow>
     length r = length saved + length js \<and> take (length saved) r = saved
     \<and> (\<forall>j<length js.
          (js ! j = 0 \<longrightarrow>
             tc (crop img (slice_box s (ysize img) (js ! j))) = Inr (r ! (length saved + j)))
          \<and> (js ! j \<noteq> 0 \<longrightarrow>
               (\<exists>new_colors e.
                  tp (crop img (slice_box s (ysize img) (js ! j))) = Inr new_colors
                  \<and> get_most_diff (take (length saved + j) r) new_colors = Inr e
                  \<and> r ! (length saved + j) = color e)))"
proof (induction js arbitrary: saved)
  case Nil
  then show ?case by simp
next
  case (Cons i js)
  let ?crop = "crop img (slice_box s (ysize img) i)"
  from Cons.prems obtain c where
    step: "(i = 0 \<and> tc ?crop = Inr c)
           \<or> (i \<noteq> 0 \<and> (\<exists>new_colors e. tp ?crop = Inr new_colors
                  \<and> get_most_diff saved new_colors = Inr e \<and> c = color e))"
    and rest: "alt_loop tc tp img s (saved @ [c]) js = Inr r"
    by (auto simp: Let_def split: sum.splits if_splits)
  note IH = Cons.IH [OF rest]
  from IH have len: "length r = length saved + length (i # js)" by simp
  from IH have tk: "take (Suc (length saved)) r = saved @ [c]" by simp
  have "take (length saved) (take (Suc (length saved)) r) = take (length saved) r"
    by (simp add: min_def)
  then have tks: "take (length saved) r = saved" using tk by simp
  have "take (Suc (length saved)) r ! length saved = r ! length saved" by simp
  then have rc: "r ! length saved = c" using tk by (simp add: nth_append)
  have all: "(js' ! j = 0 \<longrightarrow>
             tc (crop img (slice_box s (ysize img) (js' ! j))) = Inr (r ! (length saved + j)))
          \<and> (js' ! j \<noteq> 0 \<longrightarrow>
               (\<exists>new_colors e.
                  tp (crop img (slice_box s (ysize img) (js' ! j))) = Inr new_colors
                  \<and> get_most_diff (take (length saved + j) r) new_colors = Inr e
                  \<and> r ! (length saved + j) = color e))"
    if j: "j < length (i # js)" and js': "js' = i # js" for j js'
  proof (cases j)
    case 0
    then show ?thesis using step rc tks js' by auto
  next
    case (Suc j')
    then have "j' < length js" using j by simp
    with IH Suc js' show ?thesis by simp
  qed
  show ?case using len tks all by blast
qed

text \<open>
  C9 as stated fails: of an image 15 pixels wide the ten crops hold the columns 0 to 9,
  one column each; the columns 10 to 14 lie in no slice.
\<close>

theorem get_colors_alt_slices_counterexample:
  "xsize (ramp 15 4) = 15
   \<and> get_colors_alt probe_color probe_palette (ramp 15 4)
       = Inr [(0, 0, 1), (1, 1, 1), (2, 2, 1), (3, 3, 1), (4, 4, 1),
              (5, 5, 1), (6, 6, 1), (7, 7, 1), (8, 8, 1), (9, 9, 1)]"
proof -
  have s: "py_int (int_truediv 15 10) = 1" by (simp add: float_eval)
  show ?thesis
    by (simp add: get_colors_alt_def ramp_def s probe_color_def probe_palette_def probe_def
          upt_conv_Cons crop_def slice_box_def get_most_diff_def sorted_reverse_def Let_def)
qed

text \<open>
  C9, amended: \<^verbatim>\<open>get_colors_alt\<close> cuts ten slices of equal width
  \<open>slices = int (width / 10)\<close>, slice \<open>i\<close> holding the columns from \<open>i * slices\<close> up to
  but not including \<open>(i + 1) * slices\<close>. Every pixel column below \<open>10 * slices\<close> lies in
  exactly one slice and the columns from \<open>10 * slices\<close> on lie in none. A run that raises
  nothing yields ten colours, one for each slice: the first is what ColorThief's
  \<^verbatim>\<open>get_color\<close> returns for the crop of slice 0, and colour \<open>i\<close> is what
  \<^verbatim>\<open>get_most_diff\<close> picks from the palette of the crop of slice \<open>i\<close>.
\<close>

theorem get_colors_alt_slices:
  assumes "0 \<le> xsize img"
    and "get_colors_alt thief_color thief_palette img = Inr r"
  shows "length r = 10
    \<and> thief_color (crop img (slice_box (py_int (int_truediv (xsize img) 10)) (ysize img) 0))
        = Inr (r ! 0)
    \<and> (\<forall>i. 1 \<le> i \<and> i < 10 \<longrightarrow>
          (\<exists>new_colors e.
             thief_palette
               (crop img (slice_box (py_int (int_truediv (xsize img) 10)) (ysize img) i))
               = Inr new_colors
             \<and> get_most_diff (take i r) new_colors = Inr e \<and> r ! i = color e))
    \<and> (\<forall>i<10.
          xsize (crop img (slice_box (py_int (int_truediv (xsize img) 10)) (ysize img) i))
            = py_int (int_truediv (xsize img) 10)
          \<and> (\<forall>x y. 0 \<le> x \<and> 0 \<le> y \<and> y < ysize img
                    \<and> int i * py_int (int_truediv (xsize img) 10) + x < xsize img
                 \<longrightarrow> pixel
                       (crop img (slice_box (py_int (int_truediv (xsize img) 10)) (ysize img) i))
                       x y
                     = pixel img (int i * py_int (int_truediv (xsize img) 10) + x) y))
    \<and> (\<forall>x. 0 \<le> x \<and> x < 10 * py_int (int_truediv (xsize img) 10) \<longrightarrow>
          (\<exists>!i. i < 10
             \<and> column_in_box
                 (slice_box (py_int (int_truediv (xsize img) 10)) (ysize img) i) x))
    \<and> (\<forall>x i. 10 * py_int (int_truediv (xsize img) 10) \<le> x \<and> i < 10 \<longrightarrow>
          \<not> column_in_box (slice_box (py_int (int_truediv (xsize img) 10)) (ysize img) i) x)"
proof -
  let ?s = "py_int (int_truediv (xsize img) 10)"
  let ?h = "ysize img"
  have s0: "0 \<le> ?s" using assms(1) by (rule slices_nonneg)
  have loop: "alt_loop thief_color thief_palette img ?s [] [0..<10] = Inr r"
    using assms(2) by (simp add: get_colors_alt_def Let_def)
  note L = alt_loop_colours [OF loop]
  have len: "length r = 10" using L by simp
  have at: "([0..<10] ! j = 0 \<longrightarrow>
             thief_color (crop img (slice_box ?s ?h ([0..<10] ! j))) = Inr (r ! j))
          \<and> ([0..<10] ! j \<noteq> 0 \<longrightarrow>
               (\<exists>new_colors e.
                  thief_palette (crop img (slice_box ?s ?h ([0..<10] ! j))) = Inr new_colors
                  \<and> get_most_diff (take j r) new_colors = Inr e
                  \<and> r ! j = color e))" if "j < 10" for j
    using L that by simp
  have first: "thief_color (crop img (slice_box ?s ?h 0)) = Inr (r ! 0)"
    using at [of 0] by simp
  have others: "\<forall>i. 1 \<le> i \<and> i < 10 \<longrightarrow>
          (\<exists>new_colors e.
             thief_palette (crop img (slice_box ?s ?h i)) = Inr new_colors
             \<and> get_most_diff (take i r) new_colors = Inr e \<and> r ! i = color e)"
  proof (intro allI impI)
    fix i :: nat assume i: "1 \<le> i \<and> i < 10"
    then have "[0..<10] ! i = i" by simp
    then show "\<exists>new_colors e.
             thief_palette (crop img (slice_box ?s ?h i)) = Inr new_colors
             \<and> get_most_diff (take i r) new_colors = Inr e \<and> r ! i = color e"
      using at [of i] i by simp
  qed
  have crops: "\<forall>i<10. xsize (crop img (slice_box ?s ?h i)) = ?s
          \<and> (\<forall>x y. 0 \<le> x \<and> 0 \<le> y \<and> y < ysize img \<and> int i * ?s + x < xsize img
                 \<longrightarrow> pixel (crop img (slice_box ?s ?h i)) x y = pixel img (int i * ?s + x) y)"
    using crop_slice [OF s0, of img ?h] by blast
  have part: "\<forall>x. 0 \<le> x \<and> x < 10 * ?s \<longrightarrow>
          (\<exists>!i. i < 10 \<and> column_in_box (slice_box ?s ?h i) x)"
    using slice_unique by blast
  have none: "\<forall>x i. 10 * ?s \<le> x \<and> i < 10 \<longrightarrow> \<not> column_in_box (slice_box ?s ?h i) x"
    using slice_none [OF s0] by blast
  show ?thesis using len first others crops part none by blast
qed

text \<open>
  Witness for the amended C9: of an image 25 pixels wide the slices are 2 pixels wide;
  the crop of slice \<open>i\<close> holds the columns \<open>2 * i\<close> and \<open>2 * i + 1\<close>, and ten colours
  come back, one from each crop.
\<close>

theorem get_colors_alt_slices_witness:
  "0 \<le> xsize (ramp 25 4)
   \<and> get_colors_alt probe_color probe_palette (ramp 25 4)
       = Inr [(0, 1, 2), (2, 3, 2), (4, 5, 2), (6, 7, 2), (8, 9, 2),
              (10, 11, 2), (12, 13, 2), (14, 15, 2), (16, 17, 2), (18, 19, 2)]
   \<and> probe_color (crop (ramp 25 4) (slice_box 2 4 0)) = Inr (0, 1, 2)
   \<and> (\<exists>!i. i < 10 \<and> column_in_box (slice_box 2 4 i) 7)"
proof -
  have h: "0 \<le> xsize (ramp 25 4)" by (simp add: ramp_def)
  have s: "py_int (int_truediv 25 10) = 2" by (simp add: float_eval)
  have r: "get_colors_alt probe_color probe_palette (ramp 25 4)
       = Inr [(0, 1, 2), (2, 3, 2), (4, 5, 2), (6, 7, 2), (8, 9, 2),
              (10, 11, 2), (12, 13, 2), (14, 15, 2), (16, 17, 2), (18, 19, 2)]"
    by (simp add: get_colors_alt_def ramp_def s probe_color_def probe_palette_def probe_def
          upt_conv_Cons crop_def slice_box_def get_most_diff_def sorted_reverse_def Let_def)
  note t = get_colors_alt_slices [OF h r]
  have a: "probe_color (crop (ramp 25 4) (slice_box 2 4 0)) = Inr (0, 1, 2)"
    using t s by (simp add: ramp_def)
  have "(0::int) \<le> 7 \<and> 7 < 10 * py_int (int_truediv (xsize (ramp 25 4)) 10)"
    using s by (simp add: ramp_def)
  with t have "\<exists>!i. i < 10
             \<and> column_in_box
                 (slice_box (py_int (int_truediv (xsize (ramp 25 4)) 10)) (ysize (ramp 25 4)) i) 7"
    by blast
  then have b: "\<exists>!i. i < 10 \<and> column_in_box (slice_box 2 4 i) 7"
    using s by (simp add: ramp_def)
  show ?thesis using h r a b by blast
qed

section \<open>Exceptions and sizes of the image operations\<close>

lemma Image_new_Inl: "Image_new sz c = Inl e \<Longrightarrow> e = ValueError"
  by (auto simp: Image_new_def split: prod.splits if_splits)

lemma Image_new_Inr:
  "Image_new (w, h) c = Inr im \<Longrightarrow> xsize im = w \<and> ysize im = h \<and> 0 \<le> w \<and> 0 \<le> h
     \<and> pixel im = (\<lambda>x y. c)"
  by (auto simp: Image_new_def split: if_splits)

lemma paste_size [simp]: "xsize (paste dst im pos) = xsize dst" "ysize (paste dst im pos) = ysize dst"
  by (simp_all add: paste_def split: prod.splits)

lemma expand_Inl: "expand im border fill = Inl e \<Longrightarrow> e = ValueError"
  by (auto simp: expand_def split: prod.splits sum.splits dest: Image_new_Inl)

lemma expand_Inr:
  "expand im (l, t, r, b) fill = Inr out \<Longrightarrow> xsize out = l + xsize im + r \<and> ysize out = t + ysize im + b"
  by (auto simp: expand_def split: sum.splits dest: Image_new_Inr)

lemma resize_Inl: "resize resample im sz = Inl e \<Longrightarrow> e = ValueError"
  by (auto simp: resize_def split: prod.splits if_splits)

lemma strip_loop_Inl:
  "strip_loop palette w d b bg x js = Inl e \<Longrightarrow> e = ValueError"
proof (induction js arbitrary: bg x)
  case Nil then show ?case by simp
next
  case (Cons i js)
  then show ?case by (auto split: prod.splits sum.splits dest: Image_new_Inl)
qed

lemma legacy_loop_Inl:
  "legacy_loop palette d off hp bg x js = Inl e \<Longrightarrow> e = ValueError"
proof (induction js arbitrary: bg x)
  case Nil then show ?case by simp
next
  case (Cons i js)
  then show ?case by (auto split: sum.splits if_splits dest: Image_new_Inl)
qed

lemma try_except_TypeError_Inl:
  "try_except_TypeError body img = Inl e \<Longrightarrow> body = Inl e \<and> e \<noteq> TypeError"
  by (auto simp: try_except_TypeError_def split: sum.splits if_splits)

section \<open>Properties of \<^verbatim>\<open>get_palette_legacy\<close>\<close>

text \<open>
  C3: when the extractor returns a palette, \<^verbatim>\<open>get_palette_legacy\<close> ends with
  \<^verbatim>\<open>NotEnoughColors\<close> exactly when that palette has fewer than 10 colours; the
  exception is the result of the call, it is not turned into the original image.
\<close>

theorem get_palette_legacy_raises_iff:
  assumes "(if wand then get_colors magick else get_colors_alt thief_color thief_palette) img
             = Inr palette"
  shows "(get_palette_legacy magick thief_color thief_palette resample img wand
            = Inl NotEnoughColors) = (length palette < 10)"
proof (cases "length palette < 10")
  case True
  then show ?thesis using assms by (simp add: get_palette_legacy_def Let_def)
next
  case False
  have "get_palette_legacy magick thief_color thief_palette resample img wand
          \<noteq> Inl NotEnoughColors"
  proof
    assume a: "get_palette_legacy magick thief_color thief_palette resample img wand
                 = Inl NotEnoughColors"
    show False
    proof (cases "xsize img = 0")
      case True
      then show False using a assms False by (simp add: get_palette_legacy_def Let_def)
    next
      case w: False
      show False
      proof (cases "fmul (int_truediv (ysize img) (xsize img)) (float_lit (55 / 10)) = 0")
        case True
        then show False using a assms False w by (simp add: get_palette_legacy_def Let_def)
      next
        case d: False
        from a assms False w d show False
          unfolding get_palette_legacy_def Let_def
          by (auto split: sum.splits
                dest!: try_except_TypeError_Inl
                dest: Image_new_Inl legacy_loop_Inl resize_Inl expand_Inl)
      qed
    qed
  qed
  then show ?thesis using False by simp
qed

text \<open>
  Witness for C3: with six colours the call ends with \<^verbatim>\<open>NotEnoughColors\<close>, with ten
  colours it does not.
\<close>

text \<open>
  Witness for C3: with six colours the call ends with \<^verbatim>\<open>NotEnoughColors\<close>, with ten
  colours it does not.
\<close>

theorem get_palette_legacy_raises_iff_witness:
  "get_colors (fixed_colors six_colors) (solid 1000 500 (0, 0, 0)) = Inr six_colors
   \<and> get_palette_legacy (fixed_colors six_colors) (fixed_color (0, 0, 0)) (fixed_colors [])
        nearest (solid 1000 500 (0, 0, 0)) True = Inl NotEnoughColors
   \<and> length six_colors < 10
   \<and> get_colors (fixed_colors ten_colors) (solid 1000 500 (0, 0, 0)) = Inr ten_colors
   \<and> get_palette_legacy (fixed_colors ten_colors) (fixed_color (0, 0, 0)) (fixed_colors [])
        nearest (solid 1000 500 (0, 0, 0)) True \<noteq> Inl NotEnoughColors
   \<and> \<not> length ten_colors < 10"
proof -
  have s: "(if True then get_colors (fixed_colors six_colors)
            else get_colors_alt (fixed_color (0, 0, 0)) (fixed_colors [])) (solid 1000 500 (0, 0, 0))
           = Inr six_colors"
    by (simp add: get_colors_def fixed_colors_def)
  have t: "(if True then get_colors (fixed_colors ten_colors)
            else get_colors_alt (fixed_color (0, 0, 0)) (fixed_colors [])) (solid 1000 500 (0, 0, 0))
           = Inr ten_colors"
    by (simp add: get_colors_def fixed_colors_def)
  have ls: "length six_colors < 10" by (simp add: six_colors_def)
  have lt: "\<not> length ten_colors < 10" by (simp add: ten_colors_def)
  from get_palette_legacy_raises_iff [OF s, of nearest] ls
  have a: "get_palette_legacy (fixed_colors six_colors) (fixed_color (0, 0, 0)) (fixed_colors [])
        nearest (solid 1000 500 (0, 0, 0)) True = Inl NotEnoughColors" by simp
  from get_palette_legacy_raises_iff [OF t, of nearest] lt
  have b: "get_palette_legacy (fixed_colors ten_colors) (fixed_color (0, 0, 0)) (fixed_colors [])
        nearest (solid 1000 500 (0, 0, 0)) True \<noteq> Inl NotEnoughColors" by simp
  show ?thesis using a b ls lt by (simp add: get_colors_def fixed_colors_def)
qed

text \<open>
  C2 fails on the code: for an image of one colour, whose palette has length 1,
  \<^verbatim>\<open>get_palette\<close> returns the input image, but \<^verbatim>\<open>get_palette_legacy\<close> ends with
  \<^verbatim>\<open>NotEnoughColors\<close> instead of returning it.
\<close>

theorem short_palette_legacy_raises:
  "get_palette (fixed_colors [(0, 0, 0)]) (fixed_color (0, 0, 0)) (fixed_colors [])
     (solid 40 30 (0, 0, 0)) default_border True = Inr (solid 40 30 (0, 0, 0))
   \<and> get_palette_legacy (fixed_colors [(0, 0, 0)]) (fixed_color (0, 0, 0)) (fixed_colors [])
       nearest (solid 40 30 (0, 0, 0)) True = Inl NotEnoughColors"
  by (simp add: get_palette_def get_palette_legacy_def get_colors_def fixed_colors_def
        clean_colors_def Let_def)

section \<open>Properties of \<^verbatim>\<open>get_palette\<close>\<close>

text \<open>
  C1 fails on the code: for an image of 300 by 100 pixels with a palette of six dark
  colours the border is \<open>4 - 12 = -8\<close>, \<^verbatim>\<open>Image.new\<close> rejects the canvas of height
  \<open>-8\<close>, and the \<^verbatim>\<open>ValueError\<close> leaves \<^verbatim>\<open>get_palette\<close>: the canvas is created
  before the \<^verbatim>\<open>try\<close>, whose handler catches \<^verbatim>\<open>TypeError\<close> only.
\<close>

theorem get_palette_negative_border_raises:
  "get_palette (fixed_colors six_colors) (fixed_color (0, 0, 0)) (fixed_colors [])
     (solid 300 100 (0, 0, 0)) default_border True = Inl ValueError"
proof -
  have c: "clean_colors six_colors 2 = Some six_colors"
    by (simp add: six_colors_def clean_colors_def white_hits_def channels_def upt_conv_Cons)
  have b: "border_size 300 100 default_border = - 8"
    by (simp add: border_size_def float_eval)
  have n: "six_colors \<noteq> []" by (simp add: six_colors_def)
  show ?thesis
    using c b n
    by (simp add: get_palette_def get_colors_def fixed_colors_def compose_layout_def solid_def
          Image_new_def Let_def)
qed

lemma clean_colors_Some_length: "clean_colors colors t = Some r \<Longrightarrow> 5 \<le> length r"
proof -
  assume a: "clean_colors colors t = Some r"
  then have len: "6 \<le> length colors" and r: "r = clean_scan colors t [5..<length colors]"
    by (auto simp: clean_colors_def split: if_splits)
  obtain k where "k \<in> set [5..<length colors] \<or> k = length colors" "r = take k colors"
    using clean_scan_take r by blast
  then show ?thesis using len by auto
qed

subsection \<open>The strip\<close>






lemma strip_loop_succeeds:
  assumes "0 \<le> b" "0 \<le> d"
    and "0 \<le> d + py_int (int_truediv (w - d * (int (length palette) - 1)) 2)"
  shows "\<exists>strip. strip_loop palette w d b bg x js = Inr strip"
proof (induction js arbitrary: bg x)
  case Nil
  then show ?case by simp
next
  case (Cons i js)
  obtain pos sw where sg: "segment palette w d x i = (pos, sw)" by (cases "segment palette w d x i")
  then have "0 \<le> sw" using assms(2,3) by (auto simp: segment_def Let_def split: if_splits)
  then obtain ic where "Image_new (sw, b) (palette ! i) = Inr ic"
    using assms(1) by (auto simp: Image_new_def)
  then show ?case using sg Cons.IH by simp
qed

subsection \<open>The composition\<close>

text \<open>The steps of a composition that returns a result.\<close>

lemma compose_layout_parts:
  assumes "compose_layout palette img border = Inr out"
  shows "ysize img \<noteq> 0 \<and> palette \<noteq> []
    \<and> (\<exists>bg strip bordered.
          Image_new (xsize img + border_size (xsize img) (ysize img) border * 2,
                     border_size (xsize img) (ysize img) border) white = Inr bg
          \<and> strip_loop palette (xsize img)
               (py_int (int_truediv (xsize img + border_size (xsize img) (ysize img) border * 2)
                          (int (length palette))))
               (border_size (xsize img) (ysize img) border) bg 0 [0..<length palette] = Inr strip
          \<and> expand img (border_size (xsize img) (ysize img) border,
                          border_size (xsize img) (ysize img) border,
                          border_size (xsize img) (ysize img) border, 0) (palette ! 0)
               = Inr bordered
          \<and> out = paste bordered strip (0, ysize img))"
proof -
  let ?b = "border_size (xsize img) (ysize img) border"
  from assms have h: "ysize img \<noteq> 0" and p: "palette \<noteq> []"
    by (auto simp: compose_layout_def Let_def split: if_splits)
  from assms h p obtain bg where
    bg: "Image_new (xsize img + ?b * 2, ?b) white = Inr bg"
    and t: "try_except_TypeError
          (case strip_loop palette (xsize img)
                  (py_int (int_truediv (xsize img + ?b * 2) (int (length palette)))) ?b bg 0
                  [0..<length palette] of
             Inl e \<Rightarrow> Inl e
           | Inr bg' \<Rightarrow>
               (case expand img (?b, ?b, ?b, 0) (palette ! 0) of
                  Inl e \<Rightarrow> Inl e
                | Inr bordered \<Rightarrow> Inr (paste bordered bg' (0, ysize img))))
          img = Inr out"
    by (auto simp: compose_layout_def Let_def split: sum.splits)
  from t obtain strip bordered where
    "strip_loop palette (xsize img)
       (py_int (int_truediv (xsize img + ?b * 2) (int (length palette)))) ?b bg 0
       [0..<length palette] = Inr strip"
    "expand img (?b, ?b, ?b, 0) (palette ! 0) = Inr bordered"
    "out = paste bordered strip (0, ysize img)"
    by (auto simp: try_except_TypeError_def split: sum.splits if_splits
          dest: strip_loop_Inl expand_Inl)
  then show ?thesis using h p bg by blast
qed

lemma compose_layout_width:
  assumes "compose_layout palette img border = Inr out"
  shows "xsize out = xsize img + 2 * border_size (xsize img) (ysize img) border"
  using compose_layout_parts [OF assms] by (auto dest: expand_Inr)

lemma compose_layout_succeeds:
  assumes "ysize img \<noteq> 0" "palette \<noteq> []"
    and "0 \<le> border_size (xsize img) (ysize img) border"
    and "0 \<le> xsize img + border_size (xsize img) (ysize img) border * 2"
    and "0 \<le> border_size (xsize img) (ysize img) border + ysize img"
    and "0 \<le> py_int (int_truediv (xsize img + border_size (xsize img) (ysize img) border * 2)
                        (int (length palette)))"
    and "0 \<le> py_int (int_truediv (xsize img + border_size (xsize img) (ysize img) border * 2)
                        (int (length palette)))
              + py_int (int_truediv
                  (xsize img
                   - py_int (int_truediv
                       (xsize img + border_size (xsize img) (ysize img) border * 2)
                       (int (length palette)))
                     * (int (length palette) - 1)) 2)"
  shows "\<exists>out. compose_layout palette img border = Inr out"
proof -
  let ?b = "border_size (xsize img) (ysize img) border"
  let ?d = "py_int (int_truediv (xsize img + ?b * 2) (int (length palette)))"
  obtain bg where bg: "Image_new (xsize img + ?b * 2, ?b) white = Inr bg"
    using assms(3,4) by (auto simp: Image_new_def)
  obtain strip where
    s: "strip_loop palette (xsize img) ?d ?b bg 0 [0..<length palette] = Inr strip"
    using strip_loop_succeeds [OF assms(3) assms(6) assms(7)] by blast
  obtain bordered where e: "expand img (?b, ?b, ?b, 0) (palette ! 0) = Inr bordered"
    using assms(4,5) by (auto simp: expand_def Image_new_def algebra_simps)
  show ?thesis
    using assms(1,2) bg s e
    by (simp add: compose_layout_def Let_def try_except_TypeError_def)
qed

text \<open>The width of the result at an input on which the composition goes through.\<close>

lemma get_palette_width_at:
  assumes "(if wand then get_colors magick else get_colors_alt thief_color thief_palette) img
             = Inr colors"
    and "clean_colors colors 2 = Some palette"
    and "\<exists>out. compose_layout palette img border = Inr out"
  shows "map_sum id xsize (get_palette magick thief_color thief_palette img border wand)
           = Inr (xsize img + 2 * border_size (xsize img) (ysize img) border)"
proof -
  have ne: "palette \<noteq> []" using clean_colors_Some_length [OF assms(2)] by auto
  from assms(3) obtain out where o: "compose_layout palette img border = Inr out" by blast
  have "get_palette magick thief_color thief_palette img border wand = Inr out"
    using assms(1,2) ne o by (simp add: get_palette_def)
  then show ?thesis using compose_layout_width [OF o] by simp
qed

text \<open>
  C6 as stated fails: for an image of 120 by 120 pixels and the default border 0.015 the
  result is 122 pixels wide, not \<open>120 + 2 * round 1.8 = 124\<close>.
\<close>

theorem get_palette_output_width_counterexample:
  "map_sum id xsize
     (get_palette (fixed_colors six_colors) (fixed_color (0, 0, 0)) (fixed_colors [])
        (solid 120 120 (0, 0, 0)) default_border True) = Inr 122
   \<and> spec_output_width 120 120 default_border = 124"
proof -
  let ?img = "solid 120 120 (0, 0, 0)"
  have e: "(if True then get_colors (fixed_colors six_colors)
            else get_colors_alt (fixed_color (0, 0, 0)) (fixed_colors [])) ?img = Inr six_colors"
    by (simp add: get_colors_def fixed_colors_def)
  have c: "clean_colors six_colors 2 = Some six_colors"
    by (simp add: six_colors_def clean_colors_def white_hits_def channels_def upt_conv_Cons)
  have b: "border_size 120 120 default_border = 1"
    by (simp add: border_size_def float_eval)
  have d: "py_int (int_truediv 122 6) = 20" by (simp add: float_eval)
  have l: "py_int (int_truediv 20 2) = 10" by (simp add: float_eval)
  have "\<exists>out. compose_layout six_colors ?img default_border = Inr out"
    by (rule compose_layout_succeeds) (simp_all add: solid_def six_colors_def b d l)
  from get_palette_width_at [OF e c this]
  have "map_sum id xsize
     (get_palette (fixed_colors six_colors) (fixed_color (0, 0, 0)) (fixed_colors [])
        ?img default_border True) = Inr 122"
    by (simp add: solid_def b)
  moreover have "spec_output_width 120 120 default_border = 124"
    by (simp add: spec_output_width_def float_eval)
  ultimately show ?thesis by simp
qed

text \<open>
  C6, amended: whenever \<^verbatim>\<open>get_palette\<close> composes a result (the cleaned palette
  exists and no exception leaves the call), the width of the result is
  \<open>w + 2 * (int (w * b) - adj)\<close>, where \<open>w * b\<close> is the float product, \<open>int\<close> truncates
  it, and \<open>adj\<close> is \<open>int ((w / h) * 4)\<close> when the float \<open>w / h\<close> exceeds \<open>2.1\<close> and 0
  otherwise.
\<close>

theorem get_palette_output_width:
  assumes "(if wand then get_colors magick else get_colors_alt thief_color thief_palette) img
             = Inr colors"
    and "clean_colors colors 2 = Some palette"
    and "get_palette magick thief_color thief_palette img border wand = Inr out"
  shows "xsize out = xsize img
           + 2 * (py_int (fmul (float_of_int (xsize img)) border)
                  - (if int_truediv (xsize img) (ysize img) > float_lit (21 / 10)
                     then py_int (fmul (int_truediv (xsize img) (ysize img)) (float_of_int 4))
                     else 0))"
proof -
  have "palette \<noteq> []" using clean_colors_Some_length [OF assms(2)] by auto
  then have "compose_layout palette img border = Inr out"
    using assms by (simp add: get_palette_def)
  then have "xsize out = xsize img + 2 * border_size (xsize img) (ysize img) border"
    by (rule compose_layout_width)
  then show ?thesis by (simp add: border_size_def Let_def)
qed

text \<open>
  Witness for the amended C6: an image of 1920 by 800 pixels, wider than 2.1 to 1, has the
  border \<open>28 - 9 = 19\<close> and the result is 1958 pixels wide; an image of 100 by 100 pixels
  with the border 0.29 has the border \<open>int 28.999999999999996 = 28\<close> and the result is
  156 pixels wide.
\<close>

theorem get_palette_output_width_witness:
  "get_colors (fixed_colors ten_colors) (solid 1920 800 (0, 0, 0)) = Inr ten_colors
   \<and> clean_colors ten_colors 2 = Some ten_colors
   \<and> map_sum id xsize
       (get_palette (fixed_colors ten_colors) (fixed_color (0, 0, 0)) (fixed_colors [])
          (solid 1920 800 (0, 0, 0)) default_border True) = Inr 1958
   \<and> map_sum id xsize
       (get_palette (fixed_colors six_colors) (fixed_color (0, 0, 0)) (fixed_colors [])
          (solid 100 100 (0, 0, 0)) (float_lit (29 / 100)) True) = Inr 156"
proof -
  let ?img = "solid 1920 800 (0, 0, 0)"
  let ?sq = "solid 100 100 (0, 0, 0)"
  have e: "(if True then get_colors (fixed_colors ten_colors)
            else get_colors_alt (fixed_color (0, 0, 0)) (fixed_colors [])) ?img = Inr ten_colors"
    by (simp add: get_colors_def fixed_colors_def)
  have e2: "(if True then get_colors (fixed_colors six_colors)
            else get_colors_alt (fixed_color (0, 0, 0)) (fixed_colors [])) ?sq = Inr six_colors"
    by (simp add: get_colors_def fixed_colors_def)
  have c2: "clean_colors six_colors 2 = Some six_colors"
    by (simp add: six_colors_def clean_colors_def white_hits_def channels_def upt_conv_Cons)
  have c: "clean_colors ten_colors 2 = Some ten_colors"
    by (simp add: ten_colors_def clean_colors_def white_hits_def channels_def upt_conv_Cons)
  have b: "border_size 1920 800 default_border = 19"
    by (simp add: border_size_def float_eval)
  have d: "py_int (int_truediv 1958 10) = 195" by (simp add: float_eval)
  have l: "py_int (int_truediv 165 2) = 82" by (simp add: float_eval)
  have "\<exists>out. compose_layout ten_colors ?img default_border = Inr out"
    by (rule compose_layout_succeeds) (simp_all add: solid_def ten_colors_def b d l)
  then obtain out where "compose_layout ten_colors ?img default_border = Inr out" by blast
  then have o: "get_palette (fixed_colors ten_colors) (fixed_color (0, 0, 0)) (fixed_colors [])
          ?img default_border True = Inr out"
    using c by (simp add: get_palette_def get_colors_def fixed_colors_def ten_colors_def)
  have b2: "border_size 100 100 (float_lit (29 / 100)) = 28"
    by (simp add: border_size_def float_eval)
  have d2: "py_int (int_truediv 156 6) = 26" by (simp add: float_eval)
  have l2: "py_int (int_truediv (- 30) 2) = - 15" by (simp add: float_eval)
  have "\<exists>out. compose_layout six_colors ?sq (float_lit (29 / 100)) = Inr out"
    by (rule compose_layout_succeeds) (simp_all add: solid_def six_colors_def b2 d2 l2)
  then obtain out2 where "compose_layout six_colors ?sq (float_lit (29 / 100)) = Inr out2"
    by blast
  then have o2: "get_palette (fixed_colors six_colors) (fixed_color (0, 0, 0)) (fixed_colors [])
          ?sq (float_lit (29 / 100)) True = Inr out2"
    using c2 by (simp add: get_palette_def get_colors_def fixed_colors_def six_colors_def)
  from get_palette_output_width [OF e c o]
  have "xsize out = xsize ?img + 2 * border_size (xsize ?img) (ysize ?img) default_border"
    by (simp add: border_size_def Let_def)
  then have w1: "xsize out = 1958" by (simp add: solid_def b)
  from get_palette_output_width [OF e2 c2 o2]
  have "xsize out2 = xsize ?sq + 2 * border_size (xsize ?sq) (ysize ?sq) (float_lit (29 / 100))"
    by (simp add: border_size_def Let_def)
  then have w2: "xsize out2 = 156" by (simp add: solid_def b2)
  show ?thesis using o o2 w1 w2 c by (simp add: get_colors_def fixed_colors_def)
qed




end
